theory Spec2Isabelle
  imports
    Complex_Main
    "HOL-Library.Multiset"
    "HOL-Library.Char_ord"
    "HOL-Library.List_Lexorder"
    "HOL-Library.Product_Lexorder"
begin

section \<open>Avocado Analytics: the data pipeline of \<open>app.py\<close>\<close>

text \<open>
  The development embeds the data path of \<open>app.py\<close>: the module-level load
  (lines 5 to 11) and the callback \<open>update_charts\<close> (lines 129 to 227).
  Layout, styling and the figure dictionaries' constant entries are left out; what
  the three figures plot is the content of \<open>yearly_data\<close> and \<open>top_regions\<close>.

  Conventions of the model.
  \<^item> A calendar date is the triple (year, month, day), ordered lexicographically,
    which is the chronological order. \<open>Date.dt.year\<close> is the first component.
  \<^item> Strings are byte lists, ordered lexicographically by byte value.
  \<^item> The columns \<open>AveragePrice\<close> and \<open>Total Volume\<close> are taken as real
    numbers; sums and means are exact. Floating-point rounding and missing values
    (NaN) are outside the model.
  \<^item> A row carries the five columns the program reads. Row labels are unique
    throughout (a default range index, permuted and filtered), so the alignment of
    a column assignment on labels is the identity and labels are not modelled.
  \<^item> The selected dates reach the callback as ISO date text, which the comparison
    with the column \<open>Date\<close> converts to a date; the model takes them as dates.
    The selected region and type are strings.
  \<^item> The sorting algorithm behind \<open>sort_values\<close> belongs to the numeric library,
    and so does the parser behind \<open>pd.to_datetime\<close>; both are parameters. The
    library's sort is a function of the keys it is given (it draws no random numbers).
\<close>

subsection \<open>Data model\<close>

type_synonym date = "int \<times> int \<times> int"

definition dt_year :: "date \<Rightarrow> int" where
  "dt_year d = fst d"

record 'd row =
  Date :: 'd
  AveragePrice :: real
  Total_Volume :: real
  type :: string
  region :: string

text \<open>
  A data frame: its rows, and the column \<open>Year\<close> when it has been assigned
  (\<open>None\<close> when the frame has no such column).
\<close>

record frame =
  rows :: "date row list"
  Year :: "int list option"

datatype error = NameError | KeyError | ValueError

subsection \<open>Boolean indexing and the two queries of \<open>update_charts\<close>\<close>

text \<open>
  \<open>DataFrame.query\<close> evaluates its expression to a boolean mask over the rows
  and returns a new frame holding the rows where the mask is true, in their
  original order, with every column restricted alike.
\<close>

definition boolean_index :: "'a list \<Rightarrow> bool list \<Rightarrow> 'a list" where
  "boolean_index xs keep = map fst (filter snd (zip xs keep))"

definition getitem_mask :: "frame \<Rightarrow> bool list \<Rightarrow> frame" where
  "getitem_mask df keep =
     \<lparr>rows = boolean_index (rows df) keep,
      Year = map_option (\<lambda>ys. boolean_index ys keep) (Year df)\<rparr>"

text \<open>Lines 130 to 132: the query behind \<open>filtered_data\<close>.\<close>

definition query_filtered :: "frame \<Rightarrow> string \<Rightarrow> string \<Rightarrow> date \<Rightarrow> date \<Rightarrow> frame" where
  "query_filtered df region_sel avocado_type start_date end_date =
     getitem_mask df
       (map (\<lambda>r. region r = region_sel \<and> type r = avocado_type
                 \<and> Date r \<ge> start_date \<and> Date r \<le> end_date) (rows df))"

text \<open>Line 189: the query behind \<open>top_regions\<close>.\<close>

definition query_top :: "frame \<Rightarrow> string \<Rightarrow> date \<Rightarrow> date \<Rightarrow> frame" where
  "query_top df avocado_type start_date end_date =
     getitem_mask df
       (map (\<lambda>r. type r = avocado_type
                 \<and> Date r \<ge> start_date \<and> Date r \<le> end_date) (rows df))"

subsection \<open>Column assignment\<close>

text \<open>
  Line 134: \<open>filtered_data["Year"] = filtered_data["Date"].dt.year\<close>. The
  assignment changes the frame object it is applied to, and no other.
\<close>

definition setitem_Year :: "frame \<Rightarrow> int list \<Rightarrow> frame" where
  "setitem_Year df ys = df\<lparr>Year := Some ys\<rparr>"

subsection \<open>Grouped aggregation\<close>

text \<open>
  \<open>groupby(key)\<close> followed by an aggregation runs once over the rows and
  keeps one accumulator per key; the result has one row per key, in ascending
  key order (\<open>sort=True\<close> is the default). \<open>agg_insert\<close> updates the
  accumulator of a key in a key-ordered table, creating it from \<open>z\<close> when the key
  is new.
\<close>

fun agg_insert :: "'k::linorder \<Rightarrow> ('a \<Rightarrow> 'a) \<Rightarrow> 'a \<Rightarrow> ('k \<times> 'a) list \<Rightarrow> ('k \<times> 'a) list" where
  "agg_insert k f z [] = [(k, f z)]"
| "agg_insert k f z ((k', a) # ps) =
     (if k = k' then (k', f a) # ps
      else if k < k' then (k, f z) # (k', a) # ps
      else (k', a) # agg_insert k f z ps)"

definition groupby_agg :: "('r \<Rightarrow> 'k::linorder) \<Rightarrow> ('r \<Rightarrow> 'a \<Rightarrow> 'a) \<Rightarrow> 'a \<Rightarrow> 'r list \<Rightarrow> ('k \<times> 'a) list" where
  "groupby_agg key step z rs = foldl (\<lambda>acc r. agg_insert (key r) (step r) z acc) [] rs"

text \<open>
  Lines 137 to 140: group by \<open>Year\<close>, mean of \<open>AveragePrice\<close> and sum of
  \<open>Total Volume\<close>. The accumulator of a year is (count, price sum, volume sum).
  A result row is (Year, AveragePrice, Total Volume). Grouping by a column the
  frame does not have raises \<open>KeyError\<close>.
\<close>

definition groupby_Year_agg :: "frame \<Rightarrow> error + (int \<times> real \<times> real) list" where
  "groupby_Year_agg df =
     (case Year df of
        None \<Rightarrow> Inl KeyError
      | Some ys \<Rightarrow>
          Inr (map (\<lambda>(y, n, p, v). (y, p / real n, v))
                (groupby_agg fst
                   (\<lambda>(y, r) (n, p, v). (Suc n, p + AveragePrice r, v + Total_Volume r))
                   (0, 0, 0) (zip ys (rows df)))))"

text \<open>
  Lines 190 to 191: group by \<open>region\<close>, sum of \<open>Total Volume\<close>. A result row
  is (region, Total Volume).
\<close>

definition groupby_region_sum :: "frame \<Rightarrow> (string \<times> real) list" where
  "groupby_region_sum df =
     groupby_agg region (\<lambda>r v. v + Total_Volume r) 0 (rows df)"

subsection \<open>Sorting by a column\<close>

text \<open>
  \<open>sort_values\<close> asks the library for the positions that sort the key column
  (\<open>argsort\<close>, of the default kind \<open>quicksort\<close>) and takes the rows at these
  positions. For a descending sort it reverses the keys, sorts them ascending and
  reverses the positions found. The library's \<open>argsort\<close> is the parameter
  \<open>argsort\<close>; it returns positions of its argument.
\<close>

definition nargsort :: "('k list \<Rightarrow> nat list) \<Rightarrow> bool \<Rightarrow> 'k list \<Rightarrow> nat list" where
  "nargsort argsort ascending items =
     (if ascending then argsort items
      else rev (map (\<lambda>j. rev [0..<length items] ! j) (argsort (rev items))))"

definition take_rows :: "'a list \<Rightarrow> nat list \<Rightarrow> 'a list" where
  "take_rows xs indexer = map (\<lambda>i. xs ! i) indexer"

definition sort_values :: "('k list \<Rightarrow> nat list) \<Rightarrow> ('a \<Rightarrow> 'k) \<Rightarrow> bool \<Rightarrow> 'a list \<Rightarrow> 'a list" where
  "sort_values argsort col ascending xs =
     take_rows xs (nargsort argsort ascending (map col xs))"

definition head :: "nat \<Rightarrow> 'a list \<Rightarrow> 'a list" where
  "head n xs = take n xs"

text \<open>
  What the program relies on from the library's \<open>argsort\<close>: the result is a
  permutation of the positions of its argument, and reading the argument at these
  positions gives an ascending sequence. Nothing is promised about equal keys (the
  default kind is not a stable sort).
\<close>

definition is_argsort :: "('k::linorder list \<Rightarrow> nat list) \<Rightarrow> bool" where
  "is_argsort argsort \<longleftrightarrow>
     (\<forall>xs. mset (argsort xs) = mset [0..<length xs]
           \<and> sorted (map (\<lambda>i. xs ! i) (argsort xs)))"

text \<open>
  Two sorting functions of that kind, used to run the model: one keeps equal keys
  in their original order, the other reverses them.
\<close>

definition stable_argsort :: "'k::linorder list \<Rightarrow> nat list" where
  "stable_argsort xs = map snd (sort_key fst (zip xs [0..<length xs]))"

definition reversing_argsort :: "'k::linorder list \<Rightarrow> nat list" where
  "reversing_argsort xs = map snd (sort_key fst (rev (zip xs [0..<length xs])))"

subsection \<open>The callback \<open>update_charts\<close>\<close>

text \<open>
  Frames are objects in a store, addressed by position. The module-level name
  \<open>data\<close> holds the address of the loaded frame. \<open>query\<close> returns a new
  object; the assignment of line 134 updates the object \<open>filtered_data\<close>
  refers to.
\<close>

record state =
  heap :: "frame list"
  data :: nat

definition deref :: "frame list \<Rightarrow> nat \<Rightarrow> error + frame" where
  "deref h p = (if p < length h then Inr (h ! p) else Inl NameError)"

definition alloc :: "frame list \<Rightarrow> frame \<Rightarrow> nat \<times> frame list" where
  "alloc h df = (length h, h @ [df])"

record charts =
  yearly_data :: "(int \<times> real \<times> real) list"
  top_regions :: "(string \<times> real) list"

definition update_charts ::
    "(real list \<Rightarrow> nat list) \<Rightarrow> string \<Rightarrow> string \<Rightarrow> date \<Rightarrow> date \<Rightarrow> state
       \<Rightarrow> error + (charts \<times> state)" where
  "update_charts argsort region_sel avocado_type start_date end_date st =
     (case deref (heap st) (data st) of
        Inl e \<Rightarrow> Inl e
      | Inr df \<Rightarrow>
          (case alloc (heap st)
                  (query_filtered df region_sel avocado_type start_date end_date) of
             (filtered_data, h1) \<Rightarrow>
               (case deref h1 filtered_data of
                  Inl e \<Rightarrow> Inl e
                | Inr fd \<Rightarrow>
                    (let h2 = h1[filtered_data :=
                                   setitem_Year fd (map (\<lambda>r. dt_year (Date r)) (rows fd))]
                     in case deref h2 filtered_data of
                          Inl e \<Rightarrow> Inl e
                        | Inr fd' \<Rightarrow>
                            (case groupby_Year_agg fd' of
                               Inl e \<Rightarrow> Inl e
                             | Inr yearly \<Rightarrow>
                                 (case deref h2 (data st) of
                                    Inl e \<Rightarrow> Inl e
                                  | Inr df' \<Rightarrow>
                                      Inr (\<lparr>yearly_data = yearly,
                                            top_regions =
                                              head 10
                                                (sort_values argsort snd False
                                                  (groupby_region_sum
                                                    (query_top df' avocado_type
                                                       start_date end_date)))\<rparr>,
                                           st\<lparr>heap := h2\<rparr>)))))))"

subsection \<open>The module-level load\<close>

text \<open>
  Lines 5 to 9. The file read by \<open>read_csv\<close> is a list of rows whose \<open>Date\<close>
  is still text. \<open>pd.to_datetime\<close> with a format parses every date and raises
  \<open>ValueError\<close> at the first text it cannot parse; the library's parser for the
  format \<open>%Y-%m-%d\<close> is the parameter \<open>strptime\<close>.
\<close>

definition assign_Date :: "'e \<Rightarrow> 'd row \<Rightarrow> 'e row" where
  "assign_Date d r =
     \<lparr>Date = d, AveragePrice = AveragePrice r, Total_Volume = Total_Volume r,
      type = type r, region = region r\<rparr>"

definition to_datetime :: "(string \<Rightarrow> date option) \<Rightarrow> string row list \<Rightarrow> error + date row list" where
  "to_datetime strptime csv =
     (case those (map (\<lambda>r. map_option (\<lambda>d. assign_Date d r) (strptime (Date r))) csv) of
        None \<Rightarrow> Inl ValueError
      | Some rs \<Rightarrow> Inr rs)"

text \<open>
  Lines 10 to 11: \<open>unique\<close> keeps the first occurrence of every value, in order
  of appearance; \<open>unique_from seen\<close> is the scan with the values already seen.
\<close>

fun unique_from :: "'a list \<Rightarrow> 'a list \<Rightarrow> 'a list" where
  "unique_from seen [] = []"
| "unique_from seen (x # xs) =
     (if x \<in> set seen then unique_from seen xs else x # unique_from (x # seen) xs)"

definition unique :: "'a list \<Rightarrow> 'a list" where
  "unique xs = unique_from [] xs"

text \<open>The load returns \<open>data\<close>, \<open>regions\<close> and \<open>avocado_types\<close>.\<close>

definition load ::
    "(string \<Rightarrow> date option) \<Rightarrow> (date list \<Rightarrow> nat list) \<Rightarrow> (string list \<Rightarrow> nat list)
       \<Rightarrow> string row list \<Rightarrow> error + (date row list \<times> string list \<times> string list)" where
  "load strptime argsort_date argsort_str csv =
     (case to_datetime strptime csv of
        Inl e \<Rightarrow> Inl e
      | Inr rs \<Rightarrow>
          (let data_rows = sort_values argsort_date Date True rs;
               regions = unique (sort_values argsort_str id True (map region data_rows));
               avocado_types = unique (sort_values argsort_str id True (map type data_rows))
           in Inr (data_rows, regions, avocado_types)))"

text \<open>The store after the module has been loaded: one object, the frame \<open>data\<close>.\<close>

definition module_state :: "date row list \<Rightarrow> state" where
  "module_state data_rows = \<lparr>heap = [\<lparr>rows = data_rows, Year = None\<rparr>], data = 0\<rparr>"

subsection \<open>Sample inputs\<close>

text \<open>
  A parser for the fixed-width form \<open>YYYY-MM-DD\<close>, and a small file, used to
  run the model on concrete inputs.
\<close>

definition number_of :: "string \<Rightarrow> nat option" where
  "number_of ds =
     (if ds \<noteq> [] \<and> list_all (\<lambda>c. CHR ''0'' \<le> c \<and> c \<le> CHR ''9'') ds
      then Some (foldl (\<lambda>n c. 10 * n + (of_char c - 48)) 0 ds) else None)"

definition days_in_month :: "nat \<Rightarrow> nat \<Rightarrow> nat" where
  "days_in_month y m =
     (if m = 2 then (if y mod 4 = 0 \<and> (y mod 100 \<noteq> 0 \<or> y mod 400 = 0) then 29 else 28)
      else if m = 4 \<or> m = 6 \<or> m = 9 \<or> m = 11 then 30 else 31)"

definition strptime_ymd :: "string \<Rightarrow> date option" where
  "strptime_ymd s =
     (if length s = 10 \<and> s ! 4 = CHR ''-'' \<and> s ! 7 = CHR ''-''
      then (case (number_of (take 4 s), number_of (take 2 (drop 5 s)), number_of (drop 8 s)) of
              (Some y, Some m, Some d) \<Rightarrow>
                (if 1 \<le> m \<and> m \<le> 12 \<and> 1 \<le> d \<and> d \<le> days_in_month y m
                 then Some (int y, int m, int d) else None)
            | _ \<Rightarrow> None)
      else None)"

definition sample_csv :: "string row list" where
  "sample_csv =
     [\<lparr>Date = ''2016-01-03'', AveragePrice = 2, Total_Volume = 200,
       type = ''organic'', region = ''Albany''\<rparr>,
      \<lparr>Date = ''2016-01-03'', AveragePrice = 3, Total_Volume = 300,
       type = ''organic'', region = ''Boston''\<rparr>,
      \<lparr>Date = ''2015-01-04'', AveragePrice = 1, Total_Volume = 100,
       type = ''organic'', region = ''Albany''\<rparr>]"

definition sample_records :: "date row list" where
  "sample_records =
     [\<lparr>Date = (2015, 1, 4), AveragePrice = 1, Total_Volume = 100,
       type = ''organic'', region = ''Albany''\<rparr>,
      \<lparr>Date = (2016, 1, 3), AveragePrice = 2, Total_Volume = 200,
       type = ''organic'', region = ''Albany''\<rparr>,
      \<lparr>Date = (2016, 1, 3), AveragePrice = 3, Total_Volume = 300,
       type = ''organic'', region = ''Boston''\<rparr>]"

section \<open>What the specification asks for\<close>

text \<open>
  The specification's wording of the pipeline, to compare the program with. Step 1
  selects records; Step 2 has one entry per calendar year of the selected records,
  with the mean of \<open>averageValue\<close> and the sum of \<open>totalVolume\<close> of that
  year's records; Step 3 selects by category and date only and totals
  \<open>totalVolume\<close> per subcategory.
\<close>

definition spec_step1 :: "date row list \<Rightarrow> string \<Rightarrow> string \<Rightarrow> date \<Rightarrow> date \<Rightarrow> date row list" where
  "spec_step1 records region_sel type_sel startDate endDate =
     filter (\<lambda>r. region r = region_sel \<and> type r = type_sel
                 \<and> startDate \<le> Date r \<and> Date r \<le> endDate) records"

definition mean :: "real list \<Rightarrow> real" where
  "mean xs = sum_list xs / real (length xs)"

definition spec_yearlySeries :: "date row list \<Rightarrow> (int \<times> real \<times> real) list" where
  "spec_yearlySeries filtered =
     map (\<lambda>y. (y,
               mean (map AveragePrice (filter (\<lambda>r. dt_year (Date r) = y) filtered)),
               sum_list (map Total_Volume (filter (\<lambda>r. dt_year (Date r) = y) filtered))))
       (sorted_list_of_set ((\<lambda>r. dt_year (Date r)) ` set filtered))"

definition spec_step3 :: "date row list \<Rightarrow> string \<Rightarrow> date \<Rightarrow> date \<Rightarrow> date row list" where
  "spec_step3 records type_sel startDate endDate =
     filter (\<lambda>r. type r = type_sel \<and> startDate \<le> Date r \<and> Date r \<le> endDate) records"

definition spec_regionTotals :: "date row list \<Rightarrow> (string \<times> real) list" where
  "spec_regionTotals matching =
     map (\<lambda>g. (g, sum_list (map Total_Volume (filter (\<lambda>r. region r = g) matching))))
       (sorted_list_of_set (region ` set matching))"

text \<open>
  A grouped aggregation, read as a table: one entry per key that occurs, in
  ascending key order, holding the accumulator run over the rows of that key.
\<close>

definition group_table :: "('r \<Rightarrow> 'k::linorder) \<Rightarrow> ('r \<Rightarrow> 'a \<Rightarrow> 'a) \<Rightarrow> 'a \<Rightarrow> 'r list \<Rightarrow> ('k \<times> 'a) list" where
  "group_table key step z rs =
     map (\<lambda>k. (k, foldl (\<lambda>a r. step r a) z (filter (\<lambda>r. key r = k) rs)))
       (sorted_list_of_set (key ` set rs))"

text \<open>
  The two charts as a function of the records of \<open>data\<close> and of the selection,
  and the frame the callback builds for \<open>filtered_data\<close>.
\<close>

definition charts_of :: "(real list \<Rightarrow> nat list) \<Rightarrow> date row list \<Rightarrow> string \<Rightarrow> string \<Rightarrow> date \<Rightarrow> date \<Rightarrow> charts" where
  "charts_of argsort records rg ty s e =
     \<lparr>yearly_data = spec_yearlySeries (spec_step1 records rg ty s e),
      top_regions = head 10 (sort_values argsort snd False
                      (spec_regionTotals (spec_step3 records ty s e)))\<rparr>"

definition filtered_frame :: "date row list \<Rightarrow> string \<Rightarrow> string \<Rightarrow> date \<Rightarrow> date \<Rightarrow> frame" where
  "filtered_frame records rg ty s e =
     \<lparr>rows = spec_step1 records rg ty s e,
      Year = Some (map (\<lambda>r. dt_year (Date r)) (spec_step1 records rg ty s e))\<rparr>"

section \<open>Properties\<close>

subsection \<open>Boolean indexing\<close>

lemma boolean_index_map: "boolean_index xs (map P xs) = filter P xs"
  by (induction xs) (simp_all add: boolean_index_def)

lemma rows_query_top:
  "rows (query_top df ty s e) =
     filter (\<lambda>r. type r = ty \<and> s \<le> Date r \<and> Date r \<le> e) (rows df)"
  by (simp add: query_top_def getitem_mask_def boolean_index_map)

lemma rows_query_filtered:
  "rows (query_filtered df rg ty s e) =
     filter (\<lambda>r. region r = rg \<and> type r = ty \<and> s \<le> Date r \<and> Date r \<le> e) (rows df)"
  by (simp add: query_filtered_def getitem_mask_def boolean_index_map)

subsection \<open>The library sort and \<open>sort_values\<close>\<close>

lemma zip_upt_nth: "(x, i) \<in> set (zip xs [0..<length xs]) \<Longrightarrow> xs ! i = x"
  by (auto simp: set_zip)

lemma is_argsort_stable_argsort: "is_argsort (stable_argsort :: 'k::linorder list \<Rightarrow> nat list)"
proof -
  have "mset (stable_argsort xs) = mset [0..<length xs]
        \<and> sorted (map (\<lambda>i. xs ! i) (stable_argsort xs))" for xs :: "'k list"
  proof
    have "mset (map snd (sort_key fst (zip xs [0..<length xs])))
            = mset (map snd (zip xs [0..<length xs]))"
      by (simp only: mset_map mset_sort mset_rev)
    then show "mset (stable_argsort xs) = mset [0..<length xs]"
      unfolding stable_argsort_def by (simp only: map_snd_zip length_upt diff_zero)
    have "map (\<lambda>i. xs ! i) (stable_argsort xs)
            = map fst (sort_key fst (zip xs [0..<length xs]))"
      unfolding stable_argsort_def by (auto dest: zip_upt_nth)
    then show "sorted (map (\<lambda>i. xs ! i) (stable_argsort xs))" by simp
  qed
  then show ?thesis unfolding is_argsort_def by blast
qed


lemma argsort_mset: "is_argsort argsort \<Longrightarrow> mset (argsort xs) = mset [0..<length xs]"
  by (simp add: is_argsort_def)

lemma argsort_sorted: "is_argsort argsort \<Longrightarrow> sorted (map (\<lambda>i. xs ! i) (argsort xs))"
  by (simp add: is_argsort_def)


lemma argsort_length: "is_argsort argsort \<Longrightarrow> length (argsort xs) = length xs"
  using argsort_mset [of argsort xs] by (metis size_mset length_upt diff_zero)

lemma mset_take_rows:
  assumes "mset p = mset [0..<length xs]"
  shows "mset (take_rows xs p) = mset xs"
proof -
  have "mset (take_rows xs p) = image_mset (\<lambda>i. xs ! i) (mset p)"
    by (simp add: take_rows_def)
  also have "\<dots> = mset (map (\<lambda>i. xs ! i) [0..<length xs])"
    by (simp add: assms)
  also have "\<dots> = mset xs" by (simp add: map_nth)
  finally show ?thesis .
qed

lemma map_take_rows:
  assumes "set p \<subseteq> {0..<length xs}"
  shows "map f (take_rows xs p) = map (\<lambda>i. map f xs ! i) p"
  using assms by (auto simp: take_rows_def)

lemma nargsort_desc_mset:
  assumes "is_argsort argsort"
  shows "mset (nargsort argsort False ks) = mset [0..<length ks]"
proof -
  let ?n = "length ks"
  have "mset (nargsort argsort False ks)
          = image_mset (\<lambda>j. rev [0..<?n] ! j) (mset (argsort (rev ks)))"
    by (simp add: nargsort_def)
  also have "\<dots> = mset (map (\<lambda>j. rev [0..<?n] ! j) [0..<length (rev [0..<?n])])"
    by (simp add: argsort_mset [OF assms])
  also have "\<dots> = mset (rev [0..<?n])" by (simp only: map_nth)
  finally show ?thesis by simp
qed


lemma nargsort_mset:
  "is_argsort argsort \<Longrightarrow> mset (nargsort argsort asc ks) = mset [0..<length ks]"
  by (cases asc) (simp_all add: nargsort_desc_mset, simp add: nargsort_def argsort_mset)

lemma nargsort_set:
  "is_argsort argsort \<Longrightarrow> set (nargsort argsort asc ks) = {0..<length ks}"
  using nargsort_mset [of argsort asc ks] by (metis set_mset_mset set_upt)

lemma mset_sort_values:
  "is_argsort argsort \<Longrightarrow> mset (sort_values argsort col asc xs) = mset xs"
  by (simp add: sort_values_def mset_take_rows nargsort_mset)

lemma map_sort_values:
  assumes "is_argsort argsort"
  shows "map col (sort_values argsort col asc xs)
           = map (\<lambda>i. map col xs ! i) (nargsort argsort asc (map col xs))"
  unfolding sort_values_def
  by (rule map_take_rows) (simp add: nargsort_set [OF assms])

lemma sorted_sort_values_asc:
  "is_argsort argsort \<Longrightarrow> sorted (map col (sort_values argsort col True xs))"
  by (simp add: map_sort_values nargsort_def argsort_sorted)


lemma sort_values_Nil: "is_argsort argsort \<Longrightarrow> sort_values argsort col asc [] = []"
  using mset_sort_values [of argsort col asc "[]"] by simp

subsection \<open>Grouped aggregation computes the grouped table\<close>

lemma keys_agg_insert:
  "fst ` set (agg_insert k f z ps) = insert k (fst ` set ps)"
proof (induction ps)
  case Nil
  then show ?case by simp
next
  case (Cons p ps)
  then show ?case by (cases p) (simp add: insert_commute)
qed

lemma strict_sorted_agg_insert:
  "sorted_wrt (<) (map fst ps) \<Longrightarrow> sorted_wrt (<) (map fst (agg_insert k f z ps))"
proof (induction ps)
  case Nil
  then show ?case by simp
next
  case (Cons p ps)
  obtain k' a where p: "p = (k', a)" by (cases p)
  have above: "\<forall>x\<in>fst ` set ps. k' < x" and tl: "sorted_wrt (<) (map fst ps)"
    using Cons.prems unfolding p by simp_all
  consider "k = k'" | "k < k'" | "k' < k" by (metis less_linear)
  then show ?case
  proof cases
    case 1
    then show ?thesis using Cons.prems unfolding p by simp
  next
    case 2
    then have "\<forall>x\<in>fst ` set ps. k < x" using above by auto
    with 2 above tl show ?thesis unfolding p by simp
  next
    case 3
    then have "\<forall>x\<in>fst ` set (agg_insert k f z ps). k' < x"
      using above unfolding keys_agg_insert by simp
    moreover from 3 have "\<not> k < k'" "k \<noteq> k'" by auto
    ultimately show ?thesis using Cons.IH [OF tl] unfolding p by simp
  qed
qed

lemma map_of_strict_sorted_less:
  assumes "sorted_wrt (<) (k' # map fst ps)" "(k::'k::linorder) \<le> k'"
  shows "map_of ps k = None"
proof -
  have above: "\<forall>x\<in>fst ` set ps. k' < x" using assms(1) by simp
  have "k \<notin> fst ` set ps"
  proof
    assume "k \<in> fst ` set ps"
    with above have "k' < k" by blast
    with assms(2) show False by simp
  qed
  then show ?thesis by (simp add: map_of_eq_None_iff)
qed

lemma map_of_agg_insert:
  "sorted_wrt (<) (map fst ps) \<Longrightarrow>
     map_of (agg_insert k f z ps)
       = (map_of ps)(k \<mapsto> f (case map_of ps k of None \<Rightarrow> z | Some a \<Rightarrow> a))"
proof (induction ps)
  case Nil
  then show ?case by simp
next
  case (Cons p ps)
  obtain k' a where p: "p = (k', a)" by (cases p)
  show ?case
  proof (cases "k = k'")
    case True
    then show ?thesis unfolding p by (simp add: fun_eq_iff)
  next
    case ne: False
    show ?thesis
    proof (cases "k < k'")
      case True
      then have "map_of ps k = None"
        using Cons.prems map_of_strict_sorted_less [of k' ps k] unfolding p by simp
      with True ne show ?thesis unfolding p by (simp add: fun_eq_iff)
    next
      case False
      have "sorted_wrt (<) (map fst ps)" using Cons.prems by simp
      from Cons.IH [OF this] False ne show ?thesis
        unfolding p by (simp add: fun_eq_iff)
    qed
  qed
qed

lemma strict_sorted_map_of_unique:
  fixes ps qs :: "('k::linorder \<times> 'a) list"
  assumes "sorted_wrt (<) (map fst ps)" "sorted_wrt (<) (map fst qs)"
    and "map_of ps = map_of qs"
  shows "ps = qs"
proof -
  have dp: "distinct (map fst ps)" and sp: "sorted (map fst ps)"
    using assms(1) by (simp_all add: strict_sorted_iff)
  have dq: "distinct (map fst qs)" and sq: "sorted (map fst qs)"
    using assms(2) by (simp_all add: strict_sorted_iff)
  have mem: "x \<in> set ps \<longleftrightarrow> x \<in> set qs" for x
  proof (cases x)
    case (Pair k a)
    show ?thesis
      unfolding Pair
      using map_of_eq_Some_iff [OF dp, of k a] map_of_eq_Some_iff [OF dq, of k a]
      by (simp add: assms(3))
  qed
  then have eq: "set ps = set qs" by (rule set_eqI)
  have "inj_on fst (set ps)"
    using dp by (simp add: distinct_map)
  then have "inj_on fst (set ps \<union> set qs)" by (simp add: eq)
  then show ?thesis
    by (rule map_sorted_distinct_set_unique [OF _ sp dp sq dq eq])
qed

lemma map_of_map_key:
  "map_of (map (\<lambda>k. (k, g k)) ks) k = (if k \<in> set ks then Some (g k) else None)"
  by (induction ks) auto

lemma strict_sorted_group_table: "sorted_wrt (<) (map fst (group_table key step z rs))"
  by (simp add: group_table_def comp_def)

lemma map_of_group_table:
  "map_of (group_table key step z rs) k =
     (if k \<in> key ` set rs
      then Some (foldl (\<lambda>a r. step r a) z (filter (\<lambda>r. key r = k) rs)) else None)"
  by (simp add: group_table_def map_of_map_key)

lemma group_table_snoc:
  "group_table key step z (rs @ [r])
     = agg_insert (key r) (step r) z (group_table key step z rs)"
proof (rule strict_sorted_map_of_unique)
  show "sorted_wrt (<) (map fst (group_table key step z (rs @ [r])))"
    by (rule strict_sorted_group_table)
  show "sorted_wrt (<) (map fst (agg_insert (key r) (step r) z (group_table key step z rs)))"
    by (rule strict_sorted_agg_insert) (rule strict_sorted_group_table)
  show "map_of (group_table key step z (rs @ [r]))
          = map_of (agg_insert (key r) (step r) z (group_table key step z rs))"
  proof
    fix k
    have not_in: "filter (\<lambda>x. key x = key r) rs = []" if "key r \<notin> key ` set rs"
    proof -
      have "key x \<noteq> key r" if "x \<in> set rs" for x
        using that \<open>key r \<notin> key ` set rs\<close> by (metis imageI)
      then show ?thesis by (simp add: filter_empty_conv)
    qed
    show "map_of (group_table key step z (rs @ [r])) k
            = map_of (agg_insert (key r) (step r) z (group_table key step z rs)) k"
    proof (cases "k = key r")
      case True
      show ?thesis
        unfolding map_of_agg_insert [OF strict_sorted_group_table] map_of_group_table True
        by (simp add: not_in)
    next
      case False
      then have "key r \<noteq> k" by simp
      with False show ?thesis
        unfolding map_of_agg_insert [OF strict_sorted_group_table] map_of_group_table
        by simp
    qed
  qed
qed

lemma groupby_agg_group_table: "groupby_agg key step z rs = group_table key step z rs"
proof (induction rs rule: rev_induct)
  case Nil
  then show ?case by (simp add: groupby_agg_def group_table_def)
next
  case (snoc r rs)
  then show ?case by (simp add: groupby_agg_def group_table_snoc)
qed

subsection \<open>The callback in closed form\<close>

lemma foldl_add_sum_list:
  "foldl (\<lambda>a r. a + f r) z rs = z + sum_list (map f rs)" for z :: real
  by (induction rs arbitrary: z) simp_all

lemma groupby_region_sum_spec: "groupby_region_sum df = spec_regionTotals (rows df)"
  by (simp add: groupby_region_sum_def groupby_agg_group_table group_table_def
      spec_regionTotals_def foldl_add_sum_list)

lemma zip_map_self: "zip (map f xs) xs = map (\<lambda>x. (f x, x)) xs"
  by (induction xs) simp_all

lemma foldl_count_sums:
  "foldl (\<lambda>a r. case a of (n, p, v) \<Rightarrow> (Suc n, p + f r, v + g r)) (n0, p0, v0) rs
     = (n0 + length rs, p0 + sum_list (map f rs), v0 + sum_list (map g rs))"
  for p0 v0 :: real
  by (induction rs arbitrary: n0 p0 v0) simp_all

lemma year_table:
  "group_table fst (\<lambda>(y, r) (n, p, v). (Suc n, p + AveragePrice r, v + Total_Volume r))
     (0, 0, 0) (zip (map yr rs) rs)
   = map (\<lambda>k. (k, length (filter (\<lambda>r. yr r = k) rs),
                 sum_list (map AveragePrice (filter (\<lambda>r. yr r = k) rs)),
                 sum_list (map Total_Volume (filter (\<lambda>r. yr r = k) rs))))
       (sorted_list_of_set (yr ` set rs))"
proof -
  have keys: "fst ` set (zip (map yr rs) rs) = yr ` set rs"
    by (simp add: zip_map_self image_image)
  have grp: "filter (\<lambda>p. fst p = k) (zip (map yr rs) rs)
               = map (\<lambda>r. (yr r, r)) (filter (\<lambda>r. yr r = k) rs)" for k
    by (simp add: zip_map_self filter_map comp_def)
  show ?thesis
    unfolding group_table_def keys grp
    by (simp add: foldl_map foldl_count_sums)
qed

lemma groupby_Year_agg_spec:
  "groupby_Year_agg \<lparr>rows = rs, Year = Some (map (\<lambda>r. dt_year (Date r)) rs)\<rparr>
     = Inr (spec_yearlySeries rs)"
  by (simp add: groupby_Year_agg_def groupby_agg_group_table year_table
      spec_yearlySeries_def mean_def)

lemma groupby_Year_agg_no_column: "Year df = None \<Longrightarrow> groupby_Year_agg df = Inl KeyError"
  by (simp add: groupby_Year_agg_def)

lemma query_filtered_spec:
  "rows (query_filtered df rg ty s e) = spec_step1 (rows df) rg ty s e"
  by (simp add: rows_query_filtered spec_step1_def)

lemma query_top_spec:
  "rows (query_top df ty s e) = spec_step3 (rows df) ty s e"
  by (simp add: rows_query_top spec_step3_def)

lemma update_charts_bound:
  assumes "data st < length (heap st)"
  shows "update_charts argsort rg ty s e st =
           Inr (charts_of argsort (rows (heap st ! data st)) rg ty s e,
                st\<lparr>heap := heap st @ [filtered_frame (rows (heap st ! data st)) rg ty s e]\<rparr>)"
proof -
  let ?df = "heap st ! data st"
  let ?q = "query_filtered ?df rg ty s e"
  have fr: "setitem_Year ?q (map (\<lambda>r. dt_year (Date r)) (rows ?q))
              = filtered_frame (rows ?df) rg ty s e"
    by (simp add: setitem_Year_def filtered_frame_def query_filtered_spec)
  have agg: "groupby_Year_agg (filtered_frame (rows ?df) rg ty s e)
               = Inr (spec_yearlySeries (spec_step1 (rows ?df) rg ty s e))"
    unfolding filtered_frame_def by (rule groupby_Year_agg_spec)
  show ?thesis
    using assms
    by (simp add: update_charts_def deref_def alloc_def Let_def fr agg nth_append
        charts_of_def groupby_region_sum_spec query_top_spec)
qed

lemma update_charts_unbound:
  "\<not> data st < length (heap st) \<Longrightarrow> update_charts argsort rg ty s e st = Inl NameError"
  by (simp add: update_charts_def deref_def)

subsection \<open>C1: the Step 1 filter\<close>

text \<open>
  Claim C1. For every record set and every selection, the query of lines 130 to
  132 selects exactly the records whose \<open>region\<close> equals the selected region,
  whose \<open>type\<close> equals the selected type and whose \<open>Date\<close> lies between
  the start date and the end date, both ends included; the selected records keep
  their order and their multiplicity.
\<close>

theorem step1_filter_exact:
  "rows (query_filtered df rg ty s e) = spec_step1 (rows df) rg ty s e
   \<and> set (rows (query_filtered df rg ty s e))
       = {r \<in> set (rows df). region r = rg \<and> type r = ty \<and> s \<le> Date r \<and> Date r \<le> e}"
  by (simp add: rows_query_filtered spec_step1_def)

subsection \<open>C5: an inverted date range\<close>

lemma spec_step1_inverted: "e < s \<Longrightarrow> spec_step1 records rg ty s e = []"
  by (auto simp: spec_step1_def filter_empty_conv)

lemma spec_step3_inverted: "e < s \<Longrightarrow> spec_step3 records ty s e = []"
  by (auto simp: spec_step3_def filter_empty_conv)

lemma spec_yearlySeries_Nil: "spec_yearlySeries [] = []"
  by (simp add: spec_yearlySeries_def)

lemma spec_regionTotals_Nil: "spec_regionTotals [] = []"
  by (simp add: spec_regionTotals_def)

lemma charts_of_no_match:
  assumes "is_argsort argsort"
    and "spec_step1 records rg ty s e = []" and "spec_step3 records ty s e = []"
  shows "charts_of argsort records rg ty s e = \<lparr>yearly_data = [], top_regions = []\<rparr>"
  using assms
  by (simp add: charts_of_def spec_yearlySeries_Nil spec_regionTotals_Nil
      sort_values_Nil head_def)

text \<open>
  Claim C5. For every record set, when the start date is after the end date the
  callback returns, without raising, an empty yearly series, and an empty ranking
  as well.
\<close>

theorem inverted_range_empty:
  assumes "is_argsort argsort" and "data st < length (heap st)" and "e < s"
  shows "\<exists>st'. update_charts argsort rg ty s e st
                 = Inr (\<lparr>yearly_data = [], top_regions = []\<rparr>, st')"
  using assms
  by (simp add: update_charts_bound charts_of_no_match
      spec_step1_inverted spec_step3_inverted)

theorem inverted_range_empty_witness:
  "is_argsort (stable_argsort :: real list \<Rightarrow> nat list)
   \<and> data (module_state sample_records) < length (heap (module_state sample_records))
   \<and> ((2015, 1, 1) :: date) < (2016, 1, 1)
   \<and> (\<exists>st'. update_charts stable_argsort ''Albany'' ''organic'' (2016, 1, 1) (2015, 1, 1)
               (module_state sample_records)
             = Inr (\<lparr>yearly_data = [], top_regions = []\<rparr>, st'))"
proof -
  have a: "is_argsort (stable_argsort :: real list \<Rightarrow> nat list)"
    by (rule is_argsort_stable_argsort)
  have b: "data (module_state sample_records) < length (heap (module_state sample_records))"
    by (simp add: module_state_def)
  have c: "((2015, 1, 1) :: date) < (2016, 1, 1)" by simp
  show ?thesis
    using a b c inverted_range_empty [OF a b c, of "''Albany''" "''organic''"] by simp
qed

subsection \<open>C10: the loaded frame is left alone\<close>

text \<open>
  Claim C10. For every selection, a call of the callback leaves the loaded record
  set as it was: the name \<open>data\<close> refers to the same object, that object is
  unchanged, and so is every object that existed before the call. The \<open>Year\<close>
  column is set on the one object the call creates.
\<close>

theorem data_unchanged:
  assumes "data st < length (heap st)"
  shows "\<exists>c st' fd. update_charts argsort rg ty s e st = Inr (c, st')
           \<and> data st' = data st
           \<and> heap st' ! data st' = heap st ! data st
           \<and> heap st' = heap st @ [fd]
           \<and> Year fd \<noteq> None"
  using assms
  by (simp add: update_charts_bound nth_append filtered_frame_def)

theorem data_unchanged_witness:
  "data (module_state sample_records) < length (heap (module_state sample_records))
   \<and> (\<exists>c st' fd. update_charts stable_argsort ''Albany'' ''organic'' (2015, 1, 1) (2018, 12, 31)
                    (module_state sample_records) = Inr (c, st')
           \<and> data st' = data (module_state sample_records)
           \<and> heap st' ! data st' = heap (module_state sample_records) ! data (module_state sample_records)
           \<and> heap st' = heap (module_state sample_records) @ [fd]
           \<and> Year fd \<noteq> None)"
proof -
  have b: "data (module_state sample_records) < length (heap (module_state sample_records))"
    by (simp add: module_state_def)
  show ?thesis
    using b data_unchanged [OF b, of stable_argsort "''Albany''" "''organic''" "(2015, 1, 1)" "(2018, 12, 31)"]
    by simp
qed

subsection \<open>C9: repeated calls\<close>

text \<open>
  Claim C9. The charts returned by the callback are a function of the records of
  \<open>data\<close> and of the selection alone, and a second call with the same
  arguments, made in the state the first call leaves behind, returns the same
  charts, the order of the ranking included.
\<close>

theorem repeated_call_same_charts:
  assumes "data st < length (heap st)"
  shows "\<exists>st' st''.
           update_charts argsort rg ty s e st
             = Inr (charts_of argsort (rows (heap st ! data st)) rg ty s e, st')
           \<and> update_charts argsort rg ty s e st'
             = Inr (charts_of argsort (rows (heap st ! data st)) rg ty s e, st'')"
proof -
  let ?st' = "st\<lparr>heap := heap st @ [filtered_frame (rows (heap st ! data st)) rg ty s e]\<rparr>"
  have 1: "update_charts argsort rg ty s e st
             = Inr (charts_of argsort (rows (heap st ! data st)) rg ty s e, ?st')"
    by (rule update_charts_bound [OF assms])
  have "data ?st' < length (heap ?st')" using assms by simp
  from update_charts_bound [OF this, of argsort rg ty s e]
  have "\<exists>st''. update_charts argsort rg ty s e ?st'
             = Inr (charts_of argsort (rows (heap st ! data st)) rg ty s e, st'')"
    using assms by (simp add: nth_append)
  with 1 show ?thesis by blast
qed

theorem repeated_call_same_charts_witness:
  "data (module_state sample_records) < length (heap (module_state sample_records))
   \<and> (\<exists>st' st''.
           update_charts reversing_argsort ''Albany'' ''organic'' (2015, 1, 1) (2018, 12, 31)
               (module_state sample_records)
             = Inr (charts_of reversing_argsort
                      (rows (heap (module_state sample_records) ! data (module_state sample_records)))
                      ''Albany'' ''organic'' (2015, 1, 1) (2018, 12, 31), st')
           \<and> update_charts reversing_argsort ''Albany'' ''organic'' (2015, 1, 1) (2018, 12, 31) st'
             = Inr (charts_of reversing_argsort
                      (rows (heap (module_state sample_records) ! data (module_state sample_records)))
                      ''Albany'' ''organic'' (2015, 1, 1) (2018, 12, 31), st''))"
proof -
  have b: "data (module_state sample_records) < length (heap (module_state sample_records))"
    by (simp add: module_state_def)
  show ?thesis
    using b repeated_call_same_charts [OF b, of reversing_argsort "''Albany''" "''organic''" "(2015, 1, 1)" "(2018, 12, 31)"]
    by simp
qed

subsection \<open>C4: the yearly series\<close>





subsection \<open>C2: the ranking ignores the selected region\<close>

text \<open>
  Claim C2. For every record set and every selection, the ranking is computed
  from all the records of \<open>data\<close> whose \<open>type\<close> is the selected type and
  whose \<open>Date\<close> lies in the selected range; the selected region plays no part,
  so every other region selection gives the same ranking. On the sample records a
  region that matches no record gives an empty yearly series and a ranking that is
  not empty.
\<close>

theorem ranking_ignores_region:
  assumes "data st < length (heap st)"
  shows "\<exists>c st'. update_charts argsort rg ty s e st = Inr (c, st')
           \<and> top_regions c
               = head 10 (sort_values argsort snd False
                   (spec_regionTotals (spec_step3 (rows (heap st ! data st)) ty s e)))
           \<and> (\<forall>rg'. \<exists>c' st''. update_charts argsort rg' ty s e st = Inr (c', st'')
                        \<and> top_regions c' = top_regions c)
           \<and> map_sum id fst
                (update_charts stable_argsort ''Nowhere'' ''organic'' (2015, 1, 1) (2018, 12, 31)
                   (module_state sample_records))
               = Inr \<lparr>yearly_data = [],
                      top_regions = [(''Albany'', 300), (''Boston'', 300)]\<rparr>"
proof -
  have "map_sum id fst
          (update_charts stable_argsort ''Nowhere'' ''organic'' (2015, 1, 1) (2018, 12, 31)
             (module_state sample_records))
        = Inr \<lparr>yearly_data = [], top_regions = [(''Albany'', 300), (''Boston'', 300)]\<rparr>"
    by code_simp
  then show ?thesis
    by (simp add: update_charts_bound [OF assms] charts_of_def)
qed

theorem ranking_ignores_region_witness:
  "data (module_state sample_records) < length (heap (module_state sample_records))
   \<and> (\<exists>c st'. update_charts stable_argsort ''Boston'' ''organic'' (2015, 1, 1) (2018, 12, 31)
                  (module_state sample_records) = Inr (c, st')
         \<and> (\<forall>rg'. \<exists>c' st''. update_charts stable_argsort rg' ''organic'' (2015, 1, 1) (2018, 12, 31)
                  (module_state sample_records) = Inr (c', st'')
                        \<and> top_regions c' = top_regions c))"
proof -
  have b: "data (module_state sample_records) < length (heap (module_state sample_records))"
    by (simp add: module_state_def)
  show ?thesis
    using b ranking_ignores_region [OF b, of stable_argsort "''Boston''" "''organic''" "(2015, 1, 1)" "(2018, 12, 31)"]
    by blast
qed

subsection \<open>C3: the ranking\<close>









subsection \<open>The load\<close>

lemma set_unique_from: "set (unique_from seen xs) = set xs - set seen"
  by (induction xs arbitrary: seen) auto

lemma distinct_unique_from: "distinct (unique_from seen xs)"
  by (induction xs arbitrary: seen) (auto simp: set_unique_from)

lemma sorted_unique_from: "sorted xs \<Longrightarrow> sorted (unique_from seen xs)"
  by (induction xs arbitrary: seen) (auto simp: set_unique_from)

lemma unique_sorted_values:
  assumes "is_argsort argsort"
  shows "sorted (unique (sort_values argsort id True xs))"
    and "distinct (unique (sort_values argsort id True xs))"
    and "set (unique (sort_values argsort id True xs)) = set xs"
proof -
  have "sorted (map id (sort_values argsort id True xs))"
    by (rule sorted_sort_values_asc [OF assms])
  then show "sorted (unique (sort_values argsort id True xs))"
    by (simp add: unique_def sorted_unique_from)
  show "distinct (unique (sort_values argsort id True xs))"
    by (simp add: unique_def distinct_unique_from)
  have "set (sort_values argsort id True xs) = set xs"
    using mset_sort_values [OF assms, of id True xs] by (rule mset_eq_setD)
  then show "set (unique (sort_values argsort id True xs)) = set xs"
    by (simp add: unique_def set_unique_from)
qed


lemma those_map_None:
  "\<exists>x\<in>set xs. f x = None \<Longrightarrow> those (map f xs) = None"
  by (induction xs) (auto split: option.splits)


lemma to_datetime_unparsed:
  assumes "\<exists>r\<in>set csv. strptime (Date r) = None"
  shows "to_datetime strptime csv = Inl ValueError"
proof -
  have "\<exists>r\<in>set csv. map_option (\<lambda>d. assign_Date d r) (strptime (Date r)) = None"
    using assms by simp
  from those_map_None [OF this] show ?thesis
    by (simp add: to_datetime_def)
qed

lemma load_Inr:
  assumes "load strptime argsort_date argsort_str csv = Inr (records, regions, avocado_types)"
  shows "\<exists>rs. to_datetime strptime csv = Inr rs
           \<and> records = sort_values argsort_date Date True rs
           \<and> regions = unique (sort_values argsort_str id True (map region records))
           \<and> avocado_types = unique (sort_values argsort_str id True (map type records))"
  using assms by (auto simp: load_def Let_def split: sum.splits)

lemma load_vocabularies:
  assumes "is_argsort argsort_str"
    and "load strptime argsort_date argsort_str csv = Inr (records, regions, avocado_types)"
  shows "set regions = region ` set records" and "set avocado_types = type ` set records"
    and "sorted regions" and "distinct regions"
    and "sorted avocado_types" and "distinct avocado_types"
  using load_Inr [OF assms(2)] unique_sorted_values [OF assms(1)] by auto

lemma load_sample:
  "load strptime_ymd stable_argsort stable_argsort sample_csv
     = Inr (sample_records, [''Albany'', ''Boston''], [''organic''])"
  by code_simp


subsection \<open>C8: the vocabularies\<close>

text \<open>
  Claim C8. For every loaded record set, \<open>regions\<close> holds exactly the values
  of the column \<open>region\<close> of the loaded records and \<open>avocado_types\<close> exactly
  the values of the column \<open>type\<close>, each in ascending string order and without
  a duplicate.
\<close>

theorem vocabularies_sorted_distinct:
  assumes "is_argsort argsort_str"
    and "load strptime argsort_date argsort_str csv = Inr (records, regions, avocado_types)"
  shows "set regions = region ` set records \<and> sorted regions \<and> distinct regions
         \<and> set avocado_types = type ` set records
         \<and> sorted avocado_types \<and> distinct avocado_types"
  using load_vocabularies [OF assms] by simp

theorem vocabularies_sorted_distinct_witness:
  "is_argsort (stable_argsort :: string list \<Rightarrow> nat list)
   \<and> load strptime_ymd stable_argsort stable_argsort sample_csv
       = Inr (sample_records, [''Albany'', ''Boston''], [''organic''])
   \<and> set [''Albany'', ''Boston''] = region ` set sample_records
   \<and> sorted [''Albany'', ''Boston''] \<and> distinct [''Albany'', ''Boston'']
   \<and> set [''organic''] = type ` set sample_records
   \<and> sorted [''organic''] \<and> distinct [''organic'']"
proof -
  have a: "is_argsort (stable_argsort :: string list \<Rightarrow> nat list)"
    by (rule is_argsort_stable_argsort)
  show ?thesis
    using a load_sample vocabularies_sorted_distinct [OF a load_sample] by blast
qed

subsection \<open>C7: the order of the loaded records\<close>




subsection \<open>C6: selections outside the vocabularies\<close>







end
